theory Spec2Isabelle
  imports Main
begin

section \<open>Python values and dictionaries\<close>

text \<open>
  The values that reach the two shared dictionaries and \<open>should_report\<close>:
  \<open>None\<close>, booleans, integers, strings and \<open>threading.Thread\<close> objects (identified by
  the position of the worker in the list of started workers). Floats are left out.
  Dictionary keys are strings or tuples of strings: the catalog is keyed by
  \<open>(log group name, log stream name)\<close>, and \<open>_discover_log_streams\<close> looks the
  one-element tuple \<open>(LOG_GROUP_NAME,)\<close> up.
\<close>

datatype pyval = PyNone | PyBool bool | PyInt int | PyStr string | PyThread nat

datatype pykey = KStr string | KTuple "string list"

text \<open>Python truthiness, as used by \<open>not x\<close> and \<open>if x\<close>.\<close>

fun truthy :: "pyval \<Rightarrow> bool" where
  "truthy PyNone = False"
| "truthy (PyBool b) = b"
| "truthy (PyInt i) = (i \<noteq> 0)"
| "truthy (PyStr s) = (s \<noteq> [])"
| "truthy (PyThread t) = True"

text \<open>
  A \<open>dict\<close> keeps its items in insertion order. \<open>d[k] = v\<close> replaces the value of an
  existing key in place and appends a new key at the end; \<open>d.get(k)\<close> gives \<open>None\<close>
  for a missing key; \<open>d.update(e)\<close> assigns the items of \<open>e\<close> in order.
\<close>

type_synonym pydict = "(pykey \<times> pyval) list"

fun dict_set :: "pydict \<Rightarrow> pykey \<Rightarrow> pyval \<Rightarrow> pydict" where
  "dict_set [] k v = [(k, v)]"
| "dict_set ((k', v') # d) k v = (if k' = k then (k, v) # d else (k', v') # dict_set d k v)"

definition dict_get :: "pydict \<Rightarrow> pykey \<Rightarrow> pyval" where
  "dict_get d k = (case map_of d k of None \<Rightarrow> PyNone | Some v \<Rightarrow> v)"

fun dict_update :: "pydict \<Rightarrow> pydict \<Rightarrow> pydict" where
  "dict_update d [] = d"
| "dict_update d ((k, v) # e) = dict_update (dict_set d k v) e"

definition dict_keys :: "pydict \<Rightarrow> pykey list" where
  "dict_keys d = map fst d"

section \<open>Configuration, errors and the shared state\<close>

text \<open>
  The module constants the modelled functions read. \<open>LOG_STREAMS_FILTER\<close> is used by
  \<open>_wanted_log_stream\<close> but no assignment of it is part of \<open>config.py\<close>; it is taken
  as a parameter: \<open>None\<close> or a collection of stream names. \<open>slugify\<close> (python-slugify)
  and \<open>json.dumps\<close> are library functions and parameters as well.
\<close>

record config =
  LOG_GROUP_NAME :: string
  LOG_STREAMS_FILTER :: "string list option"
  AWS_LOGS_DIRECTORY :: "string option"
  slugify :: "string \<Rightarrow> string"

datatype error = RemoteError string | TypeError | ValueError

text \<open>A stream descriptor returned by \<open>get_log_streams\<close>; only \<open>logStreamName\<close> is read.\<close>

record log_stream =
  logStreamName :: string

text \<open>
  The two module-level dictionaries are objects in a store; \<open>LOG_STREAM_MAP\<close> and
  \<open>LOG_STREAM_CHECKPOINT\<close> are their addresses, which never change. The rest of the
  state: the workers started so far with their arguments \<open>(file_name, log_group_name,
  log_stream_name)\<close>, the regular files and directories of the file system, and the history
  of the calls of \<open>set_checkpoint\<close> (a history variable: no code reads it).
\<close>

type_synonym addr = nat

definition LOG_STREAM_MAP :: addr where
  "LOG_STREAM_MAP = 0"

definition LOG_STREAM_CHECKPOINT :: addr where
  "LOG_STREAM_CHECKPOINT = 1"

record world =
  heap :: "addr \<Rightarrow> pydict"
  threads :: "(string \<times> string \<times> string) list"
  files :: "string \<Rightarrow> string option"
  dirs :: "string set"
  checkpoint_writes :: "(pykey \<times> pyval) list"

text \<open>The state at import time: both dictionaries empty, no worker started.\<close>

definition initial_world :: world where
  "initial_world = \<lparr>heap = (\<lambda>a. []), threads = [], files = (\<lambda>p. None), dirs = {},
     checkpoint_writes = []\<rparr>"

section \<open>GlobalManager\<close>

text \<open>
  Each method takes the lock, does one read or one write, and releases the lock; a call is
  one atomic step. The getters return the module-level object itself, that is its address.
\<close>

definition get_log_stream_map :: "world \<Rightarrow> addr" where
  "get_log_stream_map w = LOG_STREAM_MAP"

definition set_log_stream_map :: "pykey \<Rightarrow> pyval \<Rightarrow> world \<Rightarrow> world" where
  "set_log_stream_map key val w =
     w\<lparr>heap := (heap w)(LOG_STREAM_MAP := dict_set (heap w LOG_STREAM_MAP) key val)\<rparr>"

definition get_checkpoint :: "world \<Rightarrow> addr" where
  "get_checkpoint w = LOG_STREAM_CHECKPOINT"

definition set_checkpoint :: "pykey \<Rightarrow> pyval \<Rightarrow> world \<Rightarrow> world" where
  "set_checkpoint key val w =
     w\<lparr>heap := (heap w)(LOG_STREAM_CHECKPOINT := dict_set (heap w LOG_STREAM_CHECKPOINT) key val),
       checkpoint_writes := checkpoint_writes w @ [(key, val)]\<rparr>"

section \<open>LogStreamHandler\<close>

subsection \<open>Files\<close>

text \<open>
  \<open>open(file_name, 'r')\<close> raises \<open>IOError\<close> when the file is missing and the handler
  creates it empty; an existing file is left as it is. Other I/O failures (permissions,
  a full disk) are outside the model of the file system.
\<close>

definition create_file_if_does_not_exist :: "string \<Rightarrow> world \<Rightarrow> world" where
  "create_file_if_does_not_exist file_name w =
     (case files w file_name of
        None \<Rightarrow> w\<lparr>files := (files w)(file_name \<mapsto> [])\<rparr>
      | Some c \<Rightarrow> w)"

text \<open>
  A file object opened with mode \<open>'a+'\<close>: \<open>write\<close> puts text in the object's buffer,
  \<open>flush\<close> appends the buffer to the end of the file, \<open>close\<close> flushes.
\<close>

record fileobj =
  path :: string
  buffer :: string

definition open_append :: "string \<Rightarrow> fileobj" where
  "open_append file_name = \<lparr>path = file_name, buffer = []\<rparr>"

definition file_content :: "world \<Rightarrow> string \<Rightarrow> string" where
  "file_content w p = (case files w p of None \<Rightarrow> [] | Some c \<Rightarrow> c)"

definition file_write :: "fileobj \<Rightarrow> string \<Rightarrow> fileobj" where
  "file_write f s = f\<lparr>buffer := buffer f @ s\<rparr>"

definition file_flush :: "fileobj \<Rightarrow> world \<Rightarrow> fileobj \<times> world" where
  "file_flush f w =
     (f\<lparr>buffer := []\<rparr>, w\<lparr>files := (files w)(path f \<mapsto> file_content w (path f) @ buffer f)\<rparr>)"

definition file_close :: "fileobj \<Rightarrow> world \<Rightarrow> world" where
  "file_close f w = snd (file_flush f w)"

definition newline :: string where
  "newline = [CHR 0x0A]"

text \<open>\<open>os.path.join\<close> of two components and \<open>os.path.exists\<close>.\<close>

definition os_path_join :: "string \<Rightarrow> string \<Rightarrow> string" where
  "os_path_join a b =
     (if b \<noteq> [] \<and> hd b = CHR ''/'' then b
      else if a = [] \<or> last a = CHR ''/'' then a @ b
      else a @ ''/'' @ b)"

definition os_path_exists :: "world \<Rightarrow> string \<Rightarrow> bool" where
  "os_path_exists w p = (p \<in> dirs w \<union> dom (files w))"

definition get_log_dir_name :: "config \<Rightarrow> string \<Rightarrow> string" where
  "get_log_dir_name cfg log_group_name = slugify cfg log_group_name"

text \<open>
  \<open>_get_file_name\<close>: \<open>AWS_LOGS_DIRECTORY\<close> comes from \<open>os.environ.get\<close> and is
  \<open>None\<close> when unset, on which \<open>os.path.join\<close> raises \<open>TypeError\<close>.
\<close>

definition get_file_name :: "config \<Rightarrow> string \<Rightarrow> string \<Rightarrow> world \<Rightarrow> (error + string) \<times> world" where
  "get_file_name cfg log_group_name log_stream_name w =
     (let sanitized_log_group_name = get_log_dir_name cfg log_group_name;
          sanitized_log_stream_name = slugify cfg log_stream_name
      in case AWS_LOGS_DIRECTORY cfg of
           None \<Rightarrow> (Inl TypeError, w)
         | Some root \<Rightarrow>
             (let dir_path = os_path_join root sanitized_log_group_name;
                  w1 = (if \<not> os_path_exists w dir_path
                        then w\<lparr>dirs := insert dir_path (dirs w)\<rparr> else w)
              in (Inr (root @ ''/'' @ sanitized_log_group_name @ ''/''
                         @ sanitized_log_stream_name @ ''.log''), w1)))"

subsection \<open>The worker: \<open>write_log\<close>\<close>

text \<open>
  \<open>get_log_events\<close> is a generator of the absent client: it yields finitely many pairs
  \<open>(records, next_token)\<close> and then either stops or raises. The records are of a type
  \<open>'r\<close> of the client, with \<open>str\<close> their textual form.
\<close>

type_synonym 'r log_events = "('r list \<times> pyval) list \<times> error option"

fun write_records :: "('r \<Rightarrow> string) \<Rightarrow> 'r list \<Rightarrow> fileobj \<times> world \<Rightarrow> fileobj \<times> world" where
  "write_records str [] fw = fw"
| "write_records str (l # ls) (fhandle, w) =
     write_records str ls (file_flush (file_write fhandle (str l @ newline)) w)"

fun write_pages ::
  "('r \<Rightarrow> string) \<Rightarrow> string \<Rightarrow> ('r list \<times> pyval) list \<Rightarrow> fileobj \<times> world \<Rightarrow> fileobj \<times> world" where
  "write_pages str log_stream_name [] fw = fw"
| "write_pages str log_stream_name ((logs, next_token) # ps) fw =
     (case write_records str logs fw of
        (fhandle, w) \<Rightarrow>
          write_pages str log_stream_name ps
            (fhandle, set_checkpoint (KStr log_stream_name) next_token w))"

definition write_log ::
  "('r \<Rightarrow> string) \<Rightarrow> 'r log_events \<Rightarrow> string \<Rightarrow> string \<Rightarrow> string \<Rightarrow> world \<Rightarrow> error option \<times> world" where
  "write_log str events file_name log_group_name log_stream_name w =
     (case write_pages str log_stream_name (fst events)
             (open_append file_name, create_file_if_does_not_exist file_name w) of
        (fhandle, w1) \<Rightarrow>
          (case snd events of
             Some e \<Rightarrow> (Some e, w1)
           | None \<Rightarrow> (None, file_close fhandle w1)))"

subsection \<open>Discovery\<close>

definition wanted_log_stream :: "config \<Rightarrow> string \<Rightarrow> bool" where
  "wanted_log_stream cfg log_stream_name =
     (if (case LOG_STREAMS_FILTER cfg of None \<Rightarrow> True | Some fl \<Rightarrow> log_stream_name \<in> set fl)
      then True else False)"

text \<open>
  The body of the \<open>for\<close> loop of \<open>_discover_log_streams\<close>. The test reads the catalog
  at the key \<open>(LOG_GROUP_NAME,)\<close>, a tuple of one element.
\<close>

fun discover_loop :: "config \<Rightarrow> log_stream list \<Rightarrow> world \<Rightarrow> world" where
  "discover_loop cfg [] w = w"
| "discover_loop cfg (ls # rest) w =
     discover_loop cfg rest
       (if \<not> truthy (dict_get (heap w (get_log_stream_map w)) (KTuple [LOG_GROUP_NAME cfg]))
        then (let lsn = logStreamName ls
              in if wanted_log_stream cfg lsn
                 then set_log_stream_map (KTuple [LOG_GROUP_NAME cfg, lsn]) PyNone w
                 else w)
        else w)"

text \<open>
  One tick. The answer of \<open>get_log_streams\<close> is an input: the descriptors, or the
  exception the call raises. No \<open>try\<close> surrounds the call.
\<close>

definition discover_log_streams ::
  "config \<Rightarrow> error + log_stream list \<Rightarrow> world \<Rightarrow> error option \<times> world" where
  "discover_log_streams cfg listing w =
     (case listing of
        Inl e \<Rightarrow> (Some e, w)
      | Inr log_streams \<Rightarrow> (None, discover_loop cfg log_streams w))"

text \<open>
  \<open>discover_logs\<close> is \<open>while True\<close>: the list holds the answer of the source at each
  tick observed. The result \<open>Some e\<close> says the loop has ended with the exception \<open>e\<close>,
  \<open>None\<close> that it is still running after the ticks given.
\<close>

fun discover_logs :: "config \<Rightarrow> (error + log_stream list) list \<Rightarrow> world \<Rightarrow> error option \<times> world" where
  "discover_logs cfg [] w = (None, w)"
| "discover_logs cfg (listing # rest) w =
     (case discover_log_streams cfg listing w of
        (Some e, w1) \<Rightarrow> (Some e, w1)
      | (None, w1) \<Rightarrow> discover_logs cfg rest w1)"

subsection \<open>Dispatch\<close>

definition get_new_log_streams :: "world \<Rightarrow> pykey list" where
  "get_new_log_streams w =
     map fst (filter (\<lambda>(key, val). val = PyNone) (heap w (get_log_stream_map w)))"

text \<open>
  \<open>for log_group_name, log_stream_name in new_streams\<close> unpacks each key into two
  names; a key that is not a sequence of two elements raises \<open>ValueError\<close>.
\<close>

fun unpack2 :: "pykey \<Rightarrow> error + (string \<times> string)" where
  "unpack2 (KTuple [g, s]) = Inr (g, s)"
| "unpack2 (KStr [a, b]) = Inr ([a], [b])"
| "unpack2 k = Inl ValueError"

fun sync_loop :: "config \<Rightarrow> pykey list \<Rightarrow> world \<Rightarrow> error option \<times> world" where
  "sync_loop cfg [] w = (None, w)"
| "sync_loop cfg (key # rest) w =
     (case unpack2 key of
        Inl e \<Rightarrow> (Some e, w)
      | Inr (log_group_name, log_stream_name) \<Rightarrow>
          (case get_file_name cfg log_group_name log_stream_name w of
             (Inl e, w1) \<Rightarrow> (Some e, w1)
           | (Inr file_name, w1) \<Rightarrow>
               (let log_getter = PyThread (length (threads w1));
                    w2 = w1\<lparr>threads := threads w1 @ [(file_name, log_group_name, log_stream_name)]\<rparr>
                in sync_loop cfg rest
                     (set_log_stream_map (KTuple [log_group_name, log_stream_name]) log_getter w2))))"

text \<open>One iteration of the \<open>while True\<close> of \<open>sync_new_logs\<close>.\<close>

definition sync_new_logs_tick :: "config \<Rightarrow> world \<Rightarrow> error option \<times> world" where
  "sync_new_logs_tick cfg w = sync_loop cfg (get_new_log_streams w) w"

subsection \<open>Persistence\<close>

text \<open>
  One iteration of the \<open>while True\<close> of \<open>persist_state\<close>, on the local dictionary
  \<open>state\<close> that lives across iterations; \<open>now\<close> is what \<open>time.asctime()\<close> returns.
  The file is opened with mode \<open>'w'\<close>, so its content becomes the text written.
\<close>

definition persist_cycle ::
  "(pydict \<Rightarrow> string) \<Rightarrow> string \<Rightarrow> string \<Rightarrow> pydict \<times> world \<Rightarrow> pydict \<times> world" where
  "persist_cycle json_dumps location now sw =
     (case sw of (state, w) \<Rightarrow>
        (let state1 = dict_set state (KStr ''modified_time'') (PyStr now);
             state2 = dict_update state1 (heap w (get_checkpoint w));
             state_json = json_dumps state2;
             w1 = create_file_if_does_not_exist location w
         in (state2, w1\<lparr>files := (files w1)(location \<mapsto> state_json)\<rparr>)))"

fun persist_loop ::
  "(pydict \<Rightarrow> string) \<Rightarrow> string \<Rightarrow> string list \<Rightarrow> pydict \<times> world \<Rightarrow> pydict \<times> world" where
  "persist_loop json_dumps location [] sw = sw"
| "persist_loop json_dumps location (now # rest) sw =
     persist_loop json_dumps location rest (persist_cycle json_dumps location now sw)"

definition persist_state ::
  "(pydict \<Rightarrow> string) \<Rightarrow> string \<Rightarrow> string list \<Rightarrow> world \<Rightarrow> pydict \<times> world" where
  "persist_state json_dumps location nows w = persist_loop json_dumps location nows ([], w)"

section \<open>MixpanelConsumer\<close>

definition should_report :: "pyval \<Rightarrow> pyval \<Rightarrow> bool" where
  "should_report url app_id =
     (if \<not> truthy url then False
      else if url = PyStr ''/'' then False
      else if \<not> truthy app_id then False
      else True)"

section \<open>Example runs\<close>

text \<open>
  A configuration with log group \<open>g\<close> and no filter, on whose names the slug is the name
  itself; the same with the allow-list \<open>{streamA}\<close>; a serialiser standing for
  \<open>json.dumps\<close> in the examples.
\<close>

definition example_cfg :: config where
  "example_cfg = \<lparr>LOG_GROUP_NAME = ''g'', LOG_STREAMS_FILTER = None,
     AWS_LOGS_DIRECTORY = Some ''logs'', slugify = (\<lambda>s. s)\<rparr>"

definition filter_cfg :: config where
  "filter_cfg = example_cfg\<lparr>LOG_STREAMS_FILTER := Some [''streamA'']\<rparr>"

definition example_json_dumps :: "pydict \<Rightarrow> string" where
  "example_json_dumps d = concat (map (\<lambda>(k, v).
      (case k of KStr s \<Rightarrow> s | KTuple ss \<Rightarrow> concat ss) @ '':'' @
      (case v of PyStr s \<Rightarrow> s | _ \<Rightarrow> ''null'') @ '';'') d)"

definition s1_listing :: "error + log_stream list" where
  "s1_listing = Inr [\<lparr>logStreamName = ''s1''\<rparr>]"

text \<open>A discovery tick, a dispatch tick, and the same two ticks again.\<close>

definition after_discover :: world where
  "after_discover = snd (discover_log_streams example_cfg s1_listing initial_world)"

definition after_dispatch :: world where
  "after_dispatch = snd (sync_new_logs_tick example_cfg after_discover)"

definition after_rediscover :: world where
  "after_rediscover = snd (discover_log_streams example_cfg s1_listing after_dispatch)"

definition after_redispatch :: world where
  "after_redispatch = snd (sync_new_logs_tick example_cfg after_rediscover)"

text \<open>What \<open>get_log_events\<close> yields in the examples; the records are strings.\<close>

definition one_page :: "string log_events" where
  "one_page = ([([''rec1''], PyStr ''tok1'')], None)"

definition two_pages :: "string log_events" where
  "two_pages = ([([''rec1''], PyStr ''tok1''), ([''rec2''], PyStr ''tok2'')], None)"

text \<open>A file system where the log file of stream \<open>s1\<close> exists already.\<close>

definition old_file_world :: world where
  "old_file_world =
     initial_world\<lparr>files := (files initial_world)(''logs/g/s1.log'' \<mapsto> ''old'' @ newline)\<rparr>"

text \<open>Two workers for streams of the same name \<open>s\<close> in the log groups \<open>g1\<close> and \<open>g2\<close>.\<close>

definition run_g1 :: world where
  "run_g1 = snd (write_log (\<lambda>r. r) ([([''rec1''], PyStr ''tok1'')], None)
      ''logs/g1/s.log'' ''g1'' ''s'' initial_world)"

definition run_g2 :: world where
  "run_g2 = snd (write_log (\<lambda>r. r) ([([''rec2''], PyStr ''tok2'')], None)
      ''logs/g2/s.log'' ''g2'' ''s'' run_g1)"

definition checkpointed_world :: world where
  "checkpointed_world = set_checkpoint (KStr ''s1'') (PyStr ''tok1'') initial_world"


section \<open>Properties of dictionaries\<close>

lemma map_of_dict_set: "map_of (dict_set d k v) = (map_of d)(k \<mapsto> v)"
  by (induction d) auto

lemma dict_keys_dom: "set (dict_keys d) = dom (map_of d)"
  by (simp add: dict_keys_def dom_map_of_conv_image_fst)

lemma dict_get_dict_set: "dict_get (dict_set d k v) k' = (if k' = k then v else dict_get d k')"
  by (simp add: dict_get_def map_of_dict_set)

lemma dict_set_twice: "dict_set (dict_set d k v) k v' = dict_set d k v'"
  by (induction d) auto

lemma dict_set_same: "map_of d k = Some v \<Longrightarrow> dict_set d k v = d"
  by (induction d) (auto split: if_splits)

lemma dict_set_commute:
  "k \<noteq> k' \<Longrightarrow> k \<in> dom (map_of d) \<Longrightarrow>
     dict_set (dict_set d k v) k' v' = dict_set (dict_set d k' v') k v"
  by (induction d) (auto simp: domIff)

lemma dom_dict_set: "dom (map_of (dict_set d k v)) = insert k (dom (map_of d))"
  by (simp add: map_of_dict_set)

lemma dom_dict_update: "dom (map_of (dict_update d e)) = dom (map_of d) \<union> dom (map_of e)"
  by (induction d e rule: dict_update.induct) (auto simp: dom_dict_set split: if_splits)

lemma map_of_dict_update_other:
  "k \<notin> dom (map_of e) \<Longrightarrow> map_of (dict_update d e) k = map_of d k"
  by (induction d e rule: dict_update.induct) (auto simp: map_of_dict_set split: if_splits)

lemma dict_update_set_commute:
  "k \<in> dom (map_of d) \<Longrightarrow> k \<notin> dom (map_of e) \<Longrightarrow>
     dict_update (dict_set d k v) e = dict_set (dict_update d e) k v"
proof (induction d e rule: dict_update.induct)
  case (1 d)
  then show ?case by simp
next
  case (2 d k' v' e)
  from "2.prems"(2) have ne: "k \<noteq> k'" and ke: "k \<notin> dom (map_of e)"
    by (auto split: if_splits)
  have "dict_update (dict_set d k v) ((k', v') # e) = dict_update (dict_set (dict_set d k v) k' v') e"
    by simp
  also have "\<dots> = dict_update (dict_set (dict_set d k' v') k v) e"
    using dict_set_commute [OF ne "2.prems"(1), of v v'] by simp
  also have "\<dots> = dict_set (dict_update (dict_set d k' v') e) k v"
    using "2.prems"(1) ke by (intro "2.IH") (simp_all add: dom_dict_set)
  finally show ?case by simp
qed

lemma dict_update_set_absorb:
  "k \<in> dom (map_of d) \<Longrightarrow> k \<in> dom (map_of e) \<Longrightarrow>
     dict_update (dict_set d k v) e = dict_update d e"
proof (induction d e rule: dict_update.induct)
  case (1 d)
  then show ?case by simp
next
  case (2 d k' v' e)
  show ?case
  proof (cases "k' = k")
    case True
    then show ?thesis by (simp add: dict_set_twice)
  next
    case False
    then have ine: "k \<in> dom (map_of e)" using "2.prems"(2) by (auto split: if_splits)
    have "dict_update (dict_set d k v) ((k', v') # e) = dict_update (dict_set (dict_set d k' v') k v) e"
      using dict_set_commute [OF False [symmetric] "2.prems"(1), of v v'] by simp
    also have "\<dots> = dict_update (dict_set d k' v') e"
      using "2.prems"(1) ine by (intro "2.IH") (simp_all add: dom_dict_set)
    finally show ?thesis by simp
  qed
qed

lemma dict_update_idem: "dict_update (dict_update d e) e = dict_update d e"
proof (induction d e rule: dict_update.induct)
  case (1 d)
  then show ?case by simp
next
  case (2 d k v e)
  let ?y = "dict_update (dict_set d k v) e"
  have ky: "k \<in> dom (map_of ?y)" by (simp add: dom_dict_update dom_dict_set)
  have "dict_update (dict_set ?y k v) e = ?y"
  proof (cases "k \<in> dom (map_of e)")
    case True
    with ky have "dict_update (dict_set ?y k v) e = dict_update ?y e"
      by (rule dict_update_set_absorb)
    then show ?thesis using "2.IH" by simp
  next
    case False
    then have "map_of ?y k = Some v"
      by (simp add: map_of_dict_update_other map_of_dict_set)
    then have "dict_set ?y k v = ?y" by (rule dict_set_same)
    then show ?thesis using "2.IH" by simp
  qed
  then show ?case by simp
qed

lemma dict_set_get_self: "k \<in> dom (map_of d) \<Longrightarrow> dict_set d k (dict_get d k) = d"
  by (auto simp: dict_get_def dict_set_same)

lemma dict_update_after_set:
  "dict_update (dict_set (dict_update (dict_set st k a) c) k b) c =
     dict_set (dict_update (dict_set st k a) c) k
       (dict_get (dict_update (dict_set (dict_update (dict_set st k a) c) k b) c) k)"
proof -
  define d1 where "d1 = dict_update (dict_set st k a) c"
  have kd: "k \<in> dom (map_of d1)" by (simp add: d1_def dom_dict_update dom_dict_set)
  have idem: "dict_update d1 c = d1" by (simp add: d1_def dict_update_idem)
  have "dict_update (dict_set d1 k b) c = dict_set d1 k (dict_get (dict_update (dict_set d1 k b) c) k)"
  proof (cases "k \<in> dom (map_of c)")
    case True
    with kd have "dict_update (dict_set d1 k b) c = d1"
      using idem by (simp add: dict_update_set_absorb)
    then show ?thesis using kd by (simp add: dict_set_get_self)
  next
    case False
    with kd have "dict_update (dict_set d1 k b) c = dict_set d1 k b"
      using idem by (simp add: dict_update_set_commute)
    then show ?thesis by (simp add: dict_get_dict_set dict_set_twice)
  qed
  then show ?thesis by (simp add: d1_def)
qed

section \<open>Properties of the worker and of discovery\<close>

lemma addr_distinct: "LOG_STREAM_MAP \<noteq> LOG_STREAM_CHECKPOINT"
  by (simp add: LOG_STREAM_MAP_def LOG_STREAM_CHECKPOINT_def)

subsubsection \<open>write_records\<close>

lemma write_records_heap: "heap (snd (write_records str logs (f, w))) = heap w"
  by (induction logs arbitrary: f w) (simp_all add: file_flush_def file_write_def)

lemma write_records_writes:
  "checkpoint_writes (snd (write_records str logs (f, w))) = checkpoint_writes w"
  by (induction logs arbitrary: f w) (simp_all add: file_flush_def file_write_def)

lemma write_records_path: "path (fst (write_records str logs (f, w))) = path f"
  by (induction logs arbitrary: f w) (simp_all add: file_flush_def file_write_def)

lemma write_records_buffer:
  "buffer f = [] \<Longrightarrow> buffer (fst (write_records str logs (f, w))) = []"
  by (induction logs arbitrary: f w) (simp_all add: file_flush_def file_write_def)

lemma write_records_content:
  "buffer f = [] \<Longrightarrow>
   file_content (snd (write_records str logs (f, w))) (path f) =
     file_content w (path f) @ concat (map (\<lambda>l. str l @ newline) logs)"
proof (induction logs arbitrary: f w)
  case Nil
  then show ?case by simp
next
  case (Cons l logs)
  obtain f1 w1 where r: "file_flush (file_write f (str l @ newline)) w = (f1, w1)"
    by (cases "file_flush (file_write f (str l @ newline)) w")
  have b1: "buffer f1 = []" and p1: "path f1 = path f"
    using r by (auto simp: file_flush_def file_write_def)
  have c1: "file_content w1 (path f) = file_content w (path f) @ str l @ newline"
    using r Cons.prems by (auto simp: file_flush_def file_write_def file_content_def)
  show ?case using Cons.IH [OF b1, of w1] r p1 c1 by simp
qed

lemma set_checkpoint_content: "file_content (set_checkpoint k v w) p = file_content w p"
  by (simp add: set_checkpoint_def file_content_def)

subsubsection \<open>write_pages\<close>

lemma write_pages_writes:
  "checkpoint_writes (snd (write_pages str s pages (f, w))) =
     checkpoint_writes w @ map (\<lambda>p. (KStr s, snd p)) pages"
proof (induction pages arbitrary: f w)
  case Nil
  then show ?case by simp
next
  case (Cons p pages)
  obtain logs tok where p: "p = (logs, tok)" by (cases p)
  obtain f1 w1 where r: "write_records str logs (f, w) = (f1, w1)" by (cases "write_records str logs (f, w)")
  have "checkpoint_writes w1 = checkpoint_writes w"
    using write_records_writes [of str logs f w] r by simp
  then show ?case using Cons.IH [of f1 "set_checkpoint (KStr s) tok w1"] p r
    by (simp add: set_checkpoint_def)
qed

lemma write_pages_checkpoint:
  "heap (snd (write_pages str s pages (f, w))) LOG_STREAM_CHECKPOINT =
     (if pages = [] then heap w LOG_STREAM_CHECKPOINT
      else dict_set (heap w LOG_STREAM_CHECKPOINT) (KStr s) (snd (last pages)))"
proof (induction pages arbitrary: f w)
  case Nil
  then show ?case by simp
next
  case (Cons p pages)
  obtain logs tok where p: "p = (logs, tok)" by (cases p)
  obtain f1 w1 where r: "write_records str logs (f, w) = (f1, w1)" by (cases "write_records str logs (f, w)")
  have "heap w1 = heap w"
    using write_records_heap [of str logs f w] r by simp
  then show ?case using Cons.IH [of f1 "set_checkpoint (KStr s) tok w1"] p r
    by (simp add: set_checkpoint_def dict_set_twice)
qed

lemma write_pages_catalog:
  "heap (snd (write_pages str s pages (f, w))) LOG_STREAM_MAP = heap w LOG_STREAM_MAP"
proof (induction pages arbitrary: f w)
  case Nil
  then show ?case by simp
next
  case (Cons p pages)
  obtain logs tok where p: "p = (logs, tok)" by (cases p)
  obtain f1 w1 where r: "write_records str logs (f, w) = (f1, w1)" by (cases "write_records str logs (f, w)")
  have "heap w1 = heap w"
    using write_records_heap [of str logs f w] r by simp
  then show ?case using Cons.IH [of f1 "set_checkpoint (KStr s) tok w1"] p r
    by (simp add: set_checkpoint_def addr_distinct)
qed

lemma write_pages_file:
  "buffer f = [] \<Longrightarrow>
   buffer (fst (write_pages str s pages (f, w))) = [] \<and>
   path (fst (write_pages str s pages (f, w))) = path f \<and>
   file_content (snd (write_pages str s pages (f, w))) (path f) =
     file_content w (path f) @ concat (map (\<lambda>l. str l @ newline) (concat (map fst pages)))"
proof (induction pages arbitrary: f w)
  case Nil
  then show ?case by simp
next
  case (Cons p pages)
  obtain logs tok where p: "p = (logs, tok)" by (cases p)
  obtain f1 w1 where r: "write_records str logs (f, w) = (f1, w1)" by (cases "write_records str logs (f, w)")
  have b1: "buffer f1 = []"
    using write_records_buffer [OF Cons.prems, of str logs w] r by simp
  have p1: "path f1 = path f"
    using write_records_path [of str logs f w] r by simp
  have c1: "file_content w1 (path f) = file_content w (path f) @ concat (map (\<lambda>l. str l @ newline) logs)"
    using write_records_content [OF Cons.prems, of str logs w] r by simp
  show ?case using Cons.IH [OF b1, of "set_checkpoint (KStr s) tok w1"] p r p1 c1
    by (simp add: set_checkpoint_content)
qed

lemma file_close_content:
  "buffer f = [] \<Longrightarrow> file_content (file_close f w) p = file_content w p"
  by (simp add: file_close_def file_flush_def file_content_def)

lemma file_close_heap: "heap (file_close f w) = heap w"
  by (simp add: file_close_def file_flush_def)

lemma file_close_writes: "checkpoint_writes (file_close f w) = checkpoint_writes w"
  by (simp add: file_close_def file_flush_def)

lemma create_file_content:
  "file_content (create_file_if_does_not_exist p w) q = file_content w q"
  by (simp add: create_file_if_does_not_exist_def file_content_def split: option.splits)

lemma create_file_heap: "heap (create_file_if_does_not_exist p w) = heap w"
  by (simp add: create_file_if_does_not_exist_def split: option.splits)

lemma create_file_writes:
  "checkpoint_writes (create_file_if_does_not_exist p w) = checkpoint_writes w"
  by (simp add: create_file_if_does_not_exist_def split: option.splits)

subsubsection \<open>write_log\<close>

lemma write_log_writes:
  "checkpoint_writes (snd (write_log str (pages, ending) fn g s w)) =
     checkpoint_writes w @ map (\<lambda>p. (KStr s, snd p)) pages"
proof -
  let ?w0 = "create_file_if_does_not_exist fn w"
  obtain f1 w1 where r: "write_pages str s pages (open_append fn, ?w0) = (f1, w1)"
    by (cases "write_pages str s pages (open_append fn, ?w0)")
  have "checkpoint_writes w1 = checkpoint_writes w @ map (\<lambda>p. (KStr s, snd p)) pages"
    using write_pages_writes [of str s pages "open_append fn" ?w0] r
    by (simp add: create_file_writes)
  then show ?thesis using r
    by (simp add: write_log_def file_close_writes split: option.splits)
qed

lemma write_log_checkpoint:
  "heap (snd (write_log str (pages, ending) fn g s w)) LOG_STREAM_CHECKPOINT =
     (if pages = [] then heap w LOG_STREAM_CHECKPOINT
      else dict_set (heap w LOG_STREAM_CHECKPOINT) (KStr s) (snd (last pages)))"
proof -
  let ?w0 = "create_file_if_does_not_exist fn w"
  obtain f1 w1 where r: "write_pages str s pages (open_append fn, ?w0) = (f1, w1)"
    by (cases "write_pages str s pages (open_append fn, ?w0)")
  have "heap w1 LOG_STREAM_CHECKPOINT =
     (if pages = [] then heap w LOG_STREAM_CHECKPOINT
      else dict_set (heap w LOG_STREAM_CHECKPOINT) (KStr s) (snd (last pages)))"
    using write_pages_checkpoint [of str s pages "open_append fn" ?w0] r
    by (simp add: create_file_heap)
  then show ?thesis using r
    by (simp add: write_log_def file_close_heap split: option.splits)
qed

lemma write_log_content:
  "file_content (snd (write_log str (pages, ending) fn g s w)) fn =
     file_content w fn @ concat (map (\<lambda>l. str l @ newline) (concat (map fst pages)))"
proof -
  let ?w0 = "create_file_if_does_not_exist fn w"
  obtain f1 w1 where r: "write_pages str s pages (open_append fn, ?w0) = (f1, w1)"
    by (cases "write_pages str s pages (open_append fn, ?w0)")
  have b: "buffer (open_append fn) = []" and pa: "path (open_append fn) = fn"
    by (simp_all add: open_append_def)
  have "buffer f1 = [] \<and>
    file_content w1 fn = file_content w fn @ concat (map (\<lambda>l. str l @ newline) (concat (map fst pages)))"
    using write_pages_file [OF b, of str s pages ?w0] r pa
    by (simp add: create_file_content)
  then show ?thesis using r
    by (simp add: write_log_def file_close_content split: option.splits)
qed

lemma discover_loop_catalog:
  "KTuple [LOG_GROUP_NAME cfg] \<notin> dom (map_of (heap w LOG_STREAM_MAP)) \<Longrightarrow>
   heap (discover_loop cfg ls w) LOG_STREAM_MAP =
     dict_update (heap w LOG_STREAM_MAP)
       (map (\<lambda>l. (KTuple [LOG_GROUP_NAME cfg, logStreamName l], PyNone))
          (filter (\<lambda>l. wanted_log_stream cfg (logStreamName l)) ls))"
proof (induction ls arbitrary: w)
  case Nil
  then show ?case by simp
next
  case (Cons l ls)
  have falsy: "\<not> truthy (dict_get (heap w (get_log_stream_map w)) (KTuple [LOG_GROUP_NAME cfg]))"
    using Cons.prems by (simp add: dict_get_def get_log_stream_map_def domIff)
  show ?case
  proof (cases "wanted_log_stream cfg (logStreamName l)")
    case True
    let ?w1 = "set_log_stream_map (KTuple [LOG_GROUP_NAME cfg, logStreamName l]) PyNone w"
    have "KTuple [LOG_GROUP_NAME cfg] \<notin> dom (map_of (heap ?w1 LOG_STREAM_MAP))"
      using Cons.prems by (simp add: set_log_stream_map_def dom_dict_set)
    from Cons.IH [OF this] show ?thesis using True falsy
      by (simp add: set_log_stream_map_def)
  next
    case False
    then show ?thesis using falsy Cons.IH [OF Cons.prems] by simp
  qed
qed

lemma discover_loop_keys:
  assumes "KTuple [LOG_GROUP_NAME cfg] \<notin> dom (map_of (heap w LOG_STREAM_MAP))"
  shows "dom (map_of (heap (discover_loop cfg ls w) LOG_STREAM_MAP)) =
     dom (map_of (heap w LOG_STREAM_MAP)) \<union>
     (\<lambda>l. KTuple [LOG_GROUP_NAME cfg, logStreamName l]) `
        {l \<in> set ls. wanted_log_stream cfg (logStreamName l)}"
proof -
  have d: "dom (map_of (map (\<lambda>l. (KTuple [LOG_GROUP_NAME cfg, logStreamName l], PyNone)) xs)) =
      (\<lambda>l. KTuple [LOG_GROUP_NAME cfg, logStreamName l]) ` set xs" for xs
    by (simp add: dom_map_of_conv_image_fst image_image)
  show ?thesis
    by (simp add: discover_loop_catalog [OF assms] dom_dict_update d)
qed

lemmas run_defs = write_log_def create_file_if_does_not_exist_def open_append_def
  file_flush_def file_write_def file_close_def file_content_def set_checkpoint_def
  initial_world_def LOG_STREAM_CHECKPOINT_def

lemmas tick_defs = discover_log_streams_def sync_new_logs_tick_def get_new_log_streams_def
  get_log_stream_map_def set_log_stream_map_def initial_world_def dict_get_def
  wanted_log_stream_def get_file_name_def get_log_dir_name_def os_path_join_def
  os_path_exists_def LOG_STREAM_MAP_def example_cfg_def s1_listing_def Let_def

section \<open>The claims\<close>

text \<open>
  C1. At most one worker is ever started for a stream identity: once its catalog entry
  holds a worker, no later discovery or dispatch tick makes it selectable again.
  The code does otherwise: with the source listing \<open>s1\<close> at every tick, the second
  discovery tick stores \<open>None\<close> over the worker of \<open>(g, s1)\<close>, and the next dispatch
  tick starts a second worker on the same file.
\<close>

theorem same_stream_dispatched_twice:
  "threads after_dispatch = [(''logs/g/s1.log'', ''g'', ''s1'')]
   \<and> heap after_dispatch LOG_STREAM_MAP = [(KTuple [''g'', ''s1''], PyThread 0)]
   \<and> threads after_redispatch =
       [(''logs/g/s1.log'', ''g'', ''s1''), (''logs/g/s1.log'', ''g'', ''s1'')]
   \<and> heap after_redispatch LOG_STREAM_MAP = [(KTuple [''g'', ''s1''], PyThread 1)]"
  by (simp add: after_redispatch_def after_rediscover_def after_dispatch_def after_discover_def
      tick_defs)

text \<open>
  C2, as the code has it. \<open>write_log\<close> keys the checkpoint by the stream name alone:
  the checkpoint after a run is the one before with the last token stored under the
  stream name, whatever the log group, so a later worker for a stream of the same name
  in another group overwrites the entry.
\<close>

theorem checkpoint_keyed_by_stream_name:
  "heap (snd (write_log str (pages, ending) file_name log_group_name log_stream_name w))
      LOG_STREAM_CHECKPOINT =
     (if pages = [] then heap w LOG_STREAM_CHECKPOINT
      else dict_set (heap w LOG_STREAM_CHECKPOINT) (KStr log_stream_name) (snd (last pages)))
   \<and> dict_get (heap (snd (write_log str (p # ps, ending') file_name' log_group_name' log_stream_name
        (snd (write_log str (pages, ending) file_name log_group_name log_stream_name w))))
        LOG_STREAM_CHECKPOINT) (KStr log_stream_name) = snd (last (p # ps))"
  by (simp add: write_log_checkpoint dict_get_dict_set del: last.simps)

text \<open>The theorem at the two workers of \<open>(g1, s)\<close> and \<open>(g2, s)\<close>.\<close>

theorem checkpoint_keyed_by_stream_name_witness:
  "heap run_g2 LOG_STREAM_CHECKPOINT =
     dict_set (heap run_g1 LOG_STREAM_CHECKPOINT) (KStr ''s'') (PyStr ''tok2'')"
  using checkpoint_keyed_by_stream_name
    [of "\<lambda>r. r" "[([''rec2''], PyStr ''tok2'')]" None "''logs/g2/s.log''" "''g2''" "''s''" run_g1]
  by (simp add: run_g2_def)

text \<open>
  C2 as stated fails: after the workers of \<open>(g1, s)\<close> and \<open>(g2, s)\<close> the checkpoint has
  the single key \<open>s\<close>, the token of \<open>(g1, s)\<close> is gone, and nothing is stored under a
  pair of group and stream.
\<close>

theorem checkpoint_collision_across_groups:
  "heap run_g1 LOG_STREAM_CHECKPOINT = [(KStr ''s'', PyStr ''tok1'')]
   \<and> heap run_g2 LOG_STREAM_CHECKPOINT = [(KStr ''s'', PyStr ''tok2'')]
   \<and> dict_get (heap run_g2 LOG_STREAM_CHECKPOINT) (KTuple [''g1'', ''s'']) = PyNone"
  by (simp add: run_g1_def run_g2_def run_defs dict_get_def)

text \<open>
  C3, as the code has it. \<open>get_log_stream_map\<close> and \<open>get_checkpoint\<close> return the live
  dictionary: read after a later \<open>set_log_stream_map\<close> or \<open>set_checkpoint\<close>, the value
  returned before shows the new entry.
\<close>

theorem getters_return_live_dict:
  "heap (set_log_stream_map key val w) (get_log_stream_map w) =
      dict_set (heap w (get_log_stream_map w)) key val
   \<and> heap (set_checkpoint key val w) (get_checkpoint w) =
      dict_set (heap w (get_checkpoint w)) key val"
  by (simp add: set_log_stream_map_def get_log_stream_map_def set_checkpoint_def get_checkpoint_def)

text \<open>
  C3 as stated fails: the value returned in the initial state is not unchanged by the
  next write.
\<close>

theorem snapshot_sees_later_mutation:
  "heap (set_log_stream_map (KTuple [''g'', ''s1'']) PyNone initial_world)
       (get_log_stream_map initial_world)
     \<noteq> heap initial_world (get_log_stream_map initial_world)
   \<and> heap (set_checkpoint (KStr ''s1'') (PyStr ''tok1'') initial_world)
       (get_checkpoint initial_world)
     \<noteq> heap initial_world (get_checkpoint initial_world)"
  by (simp add: set_log_stream_map_def get_log_stream_map_def set_checkpoint_def get_checkpoint_def
      initial_world_def)

text \<open>
  C4, as the code has it. An exception raised by the listing call is not caught: it ends
  \<open>discover_logs\<close> at that tick, with the catalog as the earlier ticks left it, and no
  later tick runs.
\<close>

theorem listing_failure_ends_discover_logs:
  "discover_logs cfg (map Inr ticks @ Inl e # rest) w =
     (Some e, snd (discover_logs cfg (map Inr ticks) w))"
  by (induction ticks arbitrary: w) (simp_all add: discover_log_streams_def)

text \<open>
  C4 as stated fails: after a failing first tick the loop has ended and the stream the
  source lists at the second tick is never registered.
\<close>

theorem discover_logs_stops_on_exception:
  "discover_logs example_cfg [Inl (RemoteError ''throttled''), s1_listing] initial_world
     = (Some (RemoteError ''throttled''), initial_world)"
  by (simp add: discover_log_streams_def)

text \<open>
  C5. Registering an identity that has a catalog entry leaves the value of the entry
  unchanged. The code does otherwise for a claimed entry: the discovery tick that lists
  \<open>s1\<close> again replaces the worker of \<open>(g, s1)\<close> by \<open>None\<close>.
\<close>

theorem discovery_resets_claimed_entry:
  "dict_get (heap after_dispatch LOG_STREAM_MAP) (KTuple [''g'', ''s1'']) = PyThread 0
   \<and> dict_get (heap after_rediscover LOG_STREAM_MAP) (KTuple [''g'', ''s1'']) = PyNone
   \<and> dict_keys (heap after_rediscover LOG_STREAM_MAP) = [KTuple [''g'', ''s1'']]"
  by (simp add: after_rediscover_def after_dispatch_def after_discover_def tick_defs dict_keys_def)

text \<open>
  C6. The tokens \<open>write_log\<close> writes to the checkpoint store are, in order, the tokens
  of the pages the source yields, one write for each page, under the name of the stream;
  the checkpoint of the stream is then the token of the last page.
\<close>

theorem checkpoint_writes_follow_tokens:
  "checkpoint_writes (snd (write_log str (pages, ending) file_name log_group_name log_stream_name w)) =
     checkpoint_writes w @ map (\<lambda>p. (KStr log_stream_name, snd p)) pages
   \<and> dict_get (heap (snd (write_log str (pages, ending) file_name log_group_name log_stream_name w))
        LOG_STREAM_CHECKPOINT) (KStr log_stream_name) =
      (if pages = [] then dict_get (heap w LOG_STREAM_CHECKPOINT) (KStr log_stream_name)
       else snd (last pages))"
  by (simp add: write_log_writes write_log_checkpoint dict_get_dict_set)

text \<open>The scenario of C6: two pages with the tokens \<open>tok1\<close> and \<open>tok2\<close>.\<close>

theorem checkpoint_writes_follow_tokens_witness:
  "checkpoint_writes (snd (write_log (\<lambda>r. r) two_pages ''logs/g/s1.log'' ''g'' ''s1'' initial_world)) =
     [(KStr ''s1'', PyStr ''tok1''), (KStr ''s1'', PyStr ''tok2'')]
   \<and> dict_get (heap (snd (write_log (\<lambda>r. r) two_pages ''logs/g/s1.log'' ''g'' ''s1'' initial_world))
        LOG_STREAM_CHECKPOINT) (KStr ''s1'') = PyStr ''tok2''"
  using checkpoint_writes_follow_tokens
    [of "\<lambda>r. r" "fst two_pages" "snd two_pages" "''logs/g/s1.log''" "''g''" "''s1''" initial_world]
  by (simp add: two_pages_def initial_world_def)

text \<open>
  C7, as the code has it. The file is opened for appending: after \<open>write_log\<close> the log
  file holds what it held before (nothing when it did not exist), followed by the text
  of every record and a newline, in the order of the yields; every record is flushed,
  so nothing is left in the buffer, also when the source ends with an exception.
\<close>

theorem log_file_appended_in_yield_order:
  "file_content (snd (write_log str (pages, ending) file_name log_group_name log_stream_name w)) file_name =
     file_content w file_name @ concat (map (\<lambda>l. str l @ newline) (concat (map fst pages)))
   \<and> buffer (fst (write_pages str log_stream_name pages
        (open_append file_name, create_file_if_does_not_exist file_name w))) = []"
proof -
  have "buffer (open_append file_name) = []" by (simp add: open_append_def)
  from write_pages_file [OF this, of str log_stream_name pages "create_file_if_does_not_exist file_name w"]
  show ?thesis by (simp add: write_log_content)
qed

text \<open>The theorem at two pages and a log file that exists.\<close>

theorem log_file_appended_in_yield_order_witness:
  "file_content (snd (write_log (\<lambda>r. r) two_pages ''logs/g/s1.log'' ''g'' ''s1'' old_file_world))
      ''logs/g/s1.log'' = ''old'' @ newline @ ''rec1'' @ newline @ ''rec2'' @ newline"
  using log_file_appended_in_yield_order
    [of "\<lambda>r. r" "fst two_pages" "snd two_pages" "''logs/g/s1.log''" "''g''" "''s1''" old_file_world]
  by (simp add: two_pages_def old_file_world_def file_content_def)

text \<open>
  C7 as stated fails: when the log file exists with content, the file after the run is
  not the concatenation of the records yielded.
\<close>

theorem log_file_keeps_old_content:
  "file_content (snd (write_log (\<lambda>r. r) one_page ''logs/g/s1.log'' ''g'' ''s1'' old_file_world))
      ''logs/g/s1.log'' \<noteq> concat (map (\<lambda>l. l @ newline) (concat (map fst (fst one_page))))"
  by (simp add: one_page_def old_file_world_def run_defs)

text \<open>
  C8. In a catalog whose keys are pairs, one discovery tick registers a listed stream
  if and only if no allow-list is configured or the name of the stream is in the
  allow-list: the catalog after the tick is the one before, updated with \<open>None\<close> at the
  identity of every wanted stream listed.
\<close>

theorem discovery_registers_wanted_streams:
  assumes "KTuple [LOG_GROUP_NAME cfg] \<notin> set (dict_keys (heap w LOG_STREAM_MAP))"
  shows "(KTuple [LOG_GROUP_NAME cfg, n]
            \<in> set (dict_keys (heap (snd (discover_log_streams cfg (Inr log_streams) w)) LOG_STREAM_MAP))
          \<longleftrightarrow> KTuple [LOG_GROUP_NAME cfg, n] \<in> set (dict_keys (heap w LOG_STREAM_MAP)) \<or>
               (n \<in> logStreamName ` set log_streams \<and>
                (case LOG_STREAMS_FILTER cfg of None \<Rightarrow> True | Some fl \<Rightarrow> n \<in> set fl)))
       \<and> heap (snd (discover_log_streams cfg (Inr log_streams) w)) LOG_STREAM_MAP =
           dict_update (heap w LOG_STREAM_MAP)
             (map (\<lambda>l. (KTuple [LOG_GROUP_NAME cfg, logStreamName l], PyNone))
                (filter (\<lambda>l. wanted_log_stream cfg (logStreamName l)) log_streams))"
proof -
  have a: "KTuple [LOG_GROUP_NAME cfg] \<notin> dom (map_of (heap w LOG_STREAM_MAP))"
    using assms by (simp add: dict_keys_dom)
  have "wanted_log_stream cfg n = (case LOG_STREAMS_FILTER cfg of None \<Rightarrow> True | Some fl \<Rightarrow> n \<in> set fl)"
    by (simp add: wanted_log_stream_def)
  then show ?thesis
    using discover_loop_keys [OF a, of log_streams] discover_loop_catalog [OF a, of log_streams]
    by (auto simp: discover_log_streams_def dict_keys_dom)
qed

text \<open>The scenario of C8: allow-list \<open>{streamA}\<close>, the source lists \<open>streamA\<close> and \<open>streamB\<close>.\<close>

theorem discovery_registers_wanted_streams_witness:
  "KTuple [LOG_GROUP_NAME filter_cfg] \<notin> set (dict_keys (heap initial_world LOG_STREAM_MAP))
   \<and> heap (snd (discover_log_streams filter_cfg
      (Inr [\<lparr>logStreamName = ''streamA''\<rparr>, \<lparr>logStreamName = ''streamB''\<rparr>]) initial_world)) LOG_STREAM_MAP
    = [(KTuple [''g'', ''streamA''], PyNone)]"
proof -
  have h: "KTuple [LOG_GROUP_NAME filter_cfg] \<notin> set (dict_keys (heap initial_world LOG_STREAM_MAP))"
    by (simp add: initial_world_def dict_keys_def)
  from discovery_registers_wanted_streams
    [OF h, of "''streamA''" "[\<lparr>logStreamName = ''streamA''\<rparr>, \<lparr>logStreamName = ''streamB''\<rparr>]"]
  show ?thesis using h
    by (simp add: filter_cfg_def example_cfg_def initial_world_def wanted_log_stream_def)
qed

text \<open>
  C9. When the checkpoint store is the same at two consecutive cycles of
  \<open>persist_state\<close>, each cycle writes the serialised dictionary to the state file, and
  the second dictionary is the first with only the value under \<open>modified_time\<close>
  replaced.
\<close>

theorem persist_twice_differs_in_timestamp_only:
  assumes "heap w' (get_checkpoint w') = heap w (get_checkpoint w)"
  shows "fst (persist_cycle json_dumps location t2 (fst (persist_cycle json_dumps location t1 (state, w)), w')) =
           dict_set (fst (persist_cycle json_dumps location t1 (state, w))) (KStr ''modified_time'')
             (dict_get (fst (persist_cycle json_dumps location t2
                 (fst (persist_cycle json_dumps location t1 (state, w)), w'))) (KStr ''modified_time''))
       \<and> files (snd (persist_cycle json_dumps location t1 (state, w))) location =
           Some (json_dumps (fst (persist_cycle json_dumps location t1 (state, w))))
       \<and> files (snd (persist_cycle json_dumps location t2
              (fst (persist_cycle json_dumps location t1 (state, w)), w'))) location =
           Some (json_dumps (fst (persist_cycle json_dumps location t2
              (fst (persist_cycle json_dumps location t1 (state, w)), w'))))"
  using assms dict_update_after_set
    [of state "KStr ''modified_time''" "PyStr t1" "heap w (get_checkpoint w)" "PyStr t2"]
  by (simp add: persist_cycle_def Let_def)

text \<open>The theorem at a checkpoint store with one entry, persisted twice from the empty state.\<close>

theorem persist_twice_differs_in_timestamp_only_witness:
  "heap checkpointed_world (get_checkpoint checkpointed_world) =
     heap checkpointed_world (get_checkpoint checkpointed_world)
   \<and> fst (persist_cycle example_json_dumps ''cwl.state'' ''Tue''
        (fst (persist_cycle example_json_dumps ''cwl.state'' ''Mon'' ([], checkpointed_world)),
         checkpointed_world)) =
      dict_set (fst (persist_cycle example_json_dumps ''cwl.state'' ''Mon'' ([], checkpointed_world)))
        (KStr ''modified_time'') (PyStr ''Tue'')
   \<and> files (snd (persist_cycle example_json_dumps ''cwl.state'' ''Tue''
        (fst (persist_cycle example_json_dumps ''cwl.state'' ''Mon'' ([], checkpointed_world)),
         checkpointed_world))) ''cwl.state'' = Some ''modified_time:Tue;s1:tok1;''"
  using persist_twice_differs_in_timestamp_only
    [of checkpointed_world checkpointed_world example_json_dumps "''cwl.state''" "''Tue''" "''Mon''" "[]"]
  by (simp add: persist_cycle_def checkpointed_world_def example_json_dumps_def get_checkpoint_def
      set_checkpoint_def initial_world_def dict_get_def Let_def create_file_if_does_not_exist_def)

text \<open>
  C10. \<open>should_report url app_id\<close> is true if and only if \<open>url\<close> is truthy, \<open>url\<close> is
  not the string \<open>/\<close>, and \<open>app_id\<close> is truthy.
\<close>

theorem should_report_iff:
  "should_report url app_id = (truthy url \<and> url \<noteq> PyStr ''/'' \<and> truthy app_id)"
  by (simp add: should_report_def)

end
